theory Spec2Isabelle
  imports Complex_Main
begin

section \<open>Untyped records\<close>

text \<open>
  The cluster client hands the program \<^verbatim>\<open>map[string]interface{}\<close> documents. A value of
  \<^verbatim>\<open>interface{}\<close> is nil, a string, a boolean, a number, a sequence or a nested map; the
  program only ever asks whether a value is nil, a string, a map or a sequence. A Go map is
  kept as an association list read with \<open>map_of\<close>.
\<close>

datatype jvalue =
    JNull
  | JString string
  | JBool bool
  | JNumber int
  | JList "jvalue list"
  | JMap "(string \<times> jvalue) list"

type_synonym jobject = "(string \<times> jvalue) list"

text \<open>The type assertions \<^verbatim>\<open>m[k].(string)\<close>, \<^verbatim>\<open>m[k].(map[string]interface{})\<close> and
  \<^verbatim>\<open>m[k].([]interface{})\<close>: a missing key reads as nil, and nil fails every assertion.\<close>

definition stringAt :: "jobject \<Rightarrow> string \<Rightarrow> string option" where
  "stringAt m k = (case map_of m k of Some (JString s) \<Rightarrow> Some s | _ \<Rightarrow> None)"

definition mapAt :: "jobject \<Rightarrow> string \<Rightarrow> jobject option" where
  "mapAt m k = (case map_of m k of Some (JMap o') \<Rightarrow> Some o' | _ \<Rightarrow> None)"

definition listAt :: "jobject \<Rightarrow> string \<Rightarrow> jvalue list option" where
  "listAt m k = (case map_of m k of Some (JList xs) \<Rightarrow> Some xs | _ \<Rightarrow> None)"

record application =
  appName :: string
  Object :: jobject

section \<open>The imported libraries\<close>

text \<open>
  Go code either returns or panics; a panic in \<^verbatim>\<open>main\<close>'s goroutine ends the process.
  The log lines and the report printed after a gauge update change neither a result nor
  the gauge and are left out, and with them the \<^verbatim>\<open>verbose\<close> flag.
\<close>

datatype 'a outcome = Panic | Return 'a

text \<open>
  The semantic-versioning package (\<^verbatim>\<open>github.com/Masterminds/semver/v3\<close>) is imported, so its
  parser and its comparison are parameters. \<open>NewVersion\<close> returns a pointer and an error:
  \<open>Some v\<close> stands for \<^verbatim>\<open>(v, nil)\<close> and \<open>None\<close> for \<^verbatim>\<open>(nil, err)\<close>. \<open>Compare\<close> is the
  three-way comparison of two parsed versions. \<open>nilGuardedEqual\<close> tells whether the
  package's \<^verbatim>\<open>Equal\<close> tests its operands for nil before comparing: newer releases of the
  package do, older ones do not, and the release the program is built with is not recorded
  in the sources at hand.
\<close>

record 'v semver =
  NewVersion :: "string \<Rightarrow> 'v option"
  Compare :: "'v \<Rightarrow> 'v \<Rightarrow> int"
  nilGuardedEqual :: bool

text \<open>
  \<^verbatim>\<open>v.GreaterThan(o)\<close> is \<^verbatim>\<open>v.Compare(o) > 0\<close>, and \<^verbatim>\<open>Compare\<close> reads the fields of both
  versions: through a nil pointer that is a nil dereference, a panic.
\<close>

definition GreaterThan :: "'v semver \<Rightarrow> 'v option \<Rightarrow> 'v option \<Rightarrow> bool outcome" where
  "GreaterThan L v o' =
     (case (v, o') of
        (Some a, Some b) \<Rightarrow> Return (0 < Compare L a b)
      | _ \<Rightarrow> Panic)"

text \<open>
  \<^verbatim>\<open>v.Equal(o)\<close> is \<^verbatim>\<open>v.Compare(o) == 0\<close>; a guarded \<^verbatim>\<open>Equal\<close> first answers true for
  identical pointers (here: both nil, since every call of \<open>NewVersion\<close> allocates) and
  false when exactly one side is nil.
\<close>

definition Equal :: "'v semver \<Rightarrow> 'v option \<Rightarrow> 'v option \<Rightarrow> bool outcome" where
  "Equal L v o' =
     (case (v, o') of
        (Some a, Some b) \<Rightarrow> Return (Compare L a b = 0)
      | (None, None) \<Rightarrow> (if nilGuardedEqual L then Return True else Panic)
      | _ \<Rightarrow> (if nilGuardedEqual L then Return False else Panic))"

text \<open>
  The decoded \<^verbatim>\<open>index.yaml\<close>: \<^verbatim>\<open>Entries map[string][]struct{ Version string }\<close>.
\<close>

record index =
  Entries :: "string \<rightharpoonup> string list"

text \<open>
  The network and the YAML decoder are parameters as well. \<open>httpGet\<close> is given the
  requests made so far and the URL, and answers with an error text or a response body (the
  status code is never looked at); \<open>yamlDecode\<close> turns a body into an index or fails.
\<close>

record network =
  httpGet :: "string list \<Rightarrow> string \<Rightarrow> string + string"
  yamlDecode :: "string \<Rightarrow> string + index"

section \<open>Program state\<close>

text \<open>
  One \<^verbatim>\<open>helmVersionGauge.WithLabelValues(...).Set(status)\<close>: the five label values and the
  gauge value, which is the literal 0.0 or 1.0.
\<close>

record sample =
  application :: string
  chart :: string
  repo_url :: string
  current_version :: string
  latest_version :: string
  status :: real

text \<open>What the program has done so far: the URLs fetched and the gauge updates, oldest first.\<close>

record world =
  requests :: "string list"
  emitted :: "sample list"

datatype error =
    HttpGetError string
  | YamlDecodeError string
  | ChartNotFound string

section \<open>getLatestChartVersion\<close>

text \<open>
  The loop of lines 72 to 84 over \<^verbatim>\<open>versions[1:]\<close>, with \<open>latest\<close> the running maximum. Both
  strings are parsed anew in every round; \<^verbatim>\<open>err\<close> is the error of the second parse only.
\<close>

fun scanVersions :: "'v semver \<Rightarrow> string \<Rightarrow> string list \<Rightarrow> string outcome" where
  "scanVersions L latest [] = Return latest"
| "scanVersions L latest (v # vs) =
     (let current = NewVersion L latest;
          next = NewVersion L v
      in if next \<noteq> None then
           (case GreaterThan L next current of
              Panic \<Rightarrow> Panic
            | Return b \<Rightarrow> scanVersions L (if b then v else latest) vs)
         else scanVersions L latest vs)"

definition getLatestChartVersion ::
  "network \<Rightarrow> 'v semver \<Rightarrow> string \<Rightarrow> string \<Rightarrow> world \<Rightarrow> (error + string) outcome \<times> world" where
  "getLatestChartVersion N L repo chartName w =
     (let url = repo @ ''/index.yaml'';
          w' = w\<lparr>requests := requests w @ [url]\<rparr>
      in case httpGet N (requests w) url of
           Inl e \<Rightarrow> (Return (Inl (HttpGetError e)), w')
         | Inr body \<Rightarrow>
             (case yamlDecode N body of
                Inl e \<Rightarrow> (Return (Inl (YamlDecodeError e)), w')
              | Inr idx \<Rightarrow>
                  (case Entries idx chartName of
                     None \<Rightarrow> (Return (Inl (ChartNotFound chartName)), w')
                   | Some [] \<Rightarrow> (Return (Inl (ChartNotFound chartName)), w')
                   | Some (first # rest) \<Rightarrow>
                       (case scanVersions L first rest of
                          Panic \<Rightarrow> (Panic, w')
                        | Return latest \<Rightarrow> (Return (Inr latest), w')))))"

section \<open>processHelmSource\<close>

record helm_source =
  chartName :: string
  repoURL :: string
  chartVersion :: string

text \<open>Lines 93 to 125: the three fields, each empty unless it is a string, and the two early
  returns.\<close>

definition extractFields :: "jobject \<Rightarrow> helm_source option" where
  "extractFields source =
     (case map_of source ''chart'' of
        None \<Rightarrow> None
      | Some JNull \<Rightarrow> None
      | Some helm \<Rightarrow>
          (let c = (case stringAt source ''chart'' of Some s \<Rightarrow> s | None \<Rightarrow> '''');
               u = (case stringAt source ''repoURL'' of Some s \<Rightarrow> s | None \<Rightarrow> '''');
               r = (case stringAt source ''targetRevision'' of Some s \<Rightarrow> s | None \<Rightarrow> '''')
           in if c = '''' \<or> u = '''' \<or> r = '''' then None
              else Some \<lparr>chartName = c, repoURL = u, chartVersion = r\<rparr>))"

text \<open>Lines 127 to 132: \<^verbatim>\<open>strings.HasSuffix(repoURL, "/")\<close>.\<close>

definition hasSuffix :: "string \<Rightarrow> string \<Rightarrow> bool" where
  "hasSuffix s suffix \<longleftrightarrow>
     length suffix \<le> length s \<and> drop (length s - length suffix) s = suffix"

definition normalizeRepoURL :: "string \<Rightarrow> string" where
  "normalizeRepoURL u = (if \<not> hasSuffix u ''/'' then u @ ''/'' else u)"

definition extractDescriptor :: "jobject \<Rightarrow> helm_source option" where
  "extractDescriptor source =
     (case extractFields source of
        None \<Rightarrow> None
      | Some h \<Rightarrow> Some (h\<lparr>repoURL := normalizeRepoURL (repoURL h)\<rparr>))"

text \<open>A run either is still going with the state \<open>w\<close> or has died in a panic, leaving \<open>w\<close>.\<close>

datatype run = Crashed world | Finished world

fun worldOf :: "run \<Rightarrow> world" where
  "worldOf (Crashed w) = w"
| "worldOf (Finished w) = w"

fun andThen :: "run \<Rightarrow> (world \<Rightarrow> run) \<Rightarrow> run" where
  "andThen (Crashed w) f = Crashed w"
| "andThen (Finished w) f = f w"

definition processHelmSource ::
  "network \<Rightarrow> 'v semver \<Rightarrow> string \<Rightarrow> jobject \<Rightarrow> world \<Rightarrow> run" where
  "processHelmSource N L app source w =
     (case extractDescriptor source of
        None \<Rightarrow> Finished w
      | Some h \<Rightarrow>
          (case getLatestChartVersion N L (repoURL h) (chartName h) w of
             (Panic, w') \<Rightarrow> Crashed w'
           | (Return (Inl e), w') \<Rightarrow> Finished w'
           | (Return (Inr latestVersion), w') \<Rightarrow>
               (let currentVer = NewVersion L (chartVersion h);
                    latestVer = NewVersion L latestVersion;
                    labels = \<lparr>application = app, chart = chartName h, repo_url = repoURL h,
                              current_version = chartVersion h,
                              latest_version = latestVersion, status = 0\<rparr>
                in if latestVer \<noteq> None then
                     (case Equal L currentVer latestVer of
                        Panic \<Rightarrow> Crashed w'
                      | Return b \<Rightarrow>
                          Finished (w'\<lparr>emitted := emitted w' @
                                      [labels\<lparr>status := (if b then 1 else 0)\<rparr>]\<rparr>))
                   else Finished (w'\<lparr>emitted := emitted w' @ [labels]\<rparr>))))"

section \<open>One cycle of main\<close>

text \<open>Lines 262 to 271: the entries of \<^verbatim>\<open>spec.sources\<close> in order, those that are maps.\<close>

fun processSources ::
  "network \<Rightarrow> 'v semver \<Rightarrow> string \<Rightarrow> jvalue list \<Rightarrow> world \<Rightarrow> run" where
  "processSources N L app [] w = Finished w"
| "processSources N L app (src # rest) w =
     (case src of
        JMap sourceMap \<Rightarrow>
          andThen (processHelmSource N L app sourceMap w) (processSources N L app rest)
      | _ \<Rightarrow> processSources N L app rest w)"

text \<open>Lines 236 to 274: the body of the loop over \<^verbatim>\<open>list.Items\<close>.\<close>

definition processApp :: "network \<Rightarrow> 'v semver \<Rightarrow> application \<Rightarrow> world \<Rightarrow> run" where
  "processApp N L a w =
     (case mapAt (Object a) ''spec'' of
        None \<Rightarrow> Finished w
      | Some spec \<Rightarrow>
          andThen
            (case mapAt spec ''source'' of
               Some source \<Rightarrow> processHelmSource N L (appName a) source w
             | None \<Rightarrow> Finished w)
            (\<lambda>w'. case listAt spec ''sources'' of
                     Some sources \<Rightarrow> processSources N L (appName a) sources w'
                   | None \<Rightarrow> Finished w'))"

text \<open>Lines 235 to 275: one pass over the applications listed.\<close>

fun runOnce :: "network \<Rightarrow> 'v semver \<Rightarrow> application list \<Rightarrow> world \<Rightarrow> run" where
  "runOnce N L [] w = Finished w"
| "runOnce N L (a # apps) w = andThen (processApp N L a w) (runOnce N L apps)"

section \<open>Reference notions\<close>

text \<open>
  The source maps of one application in the order the program visits them: the map under
  \<^verbatim>\<open>spec.source\<close>, then the entries of \<^verbatim>\<open>spec.sources\<close> that are maps.
\<close>

definition candidateSources :: "application \<Rightarrow> jobject list" where
  "candidateSources a =
     (case mapAt (Object a) ''spec'' of
        None \<Rightarrow> []
      | Some spec \<Rightarrow>
          (case mapAt spec ''source'' of Some source \<Rightarrow> [source] | None \<Rightarrow> []) @
          (case listAt spec ''sources'' of
             Some sources \<Rightarrow> concat (map (\<lambda>src. case src of JMap m \<Rightarrow> [m] | _ \<Rightarrow> []) sources)
           | None \<Rightarrow> []))"

text \<open>Processing a list of source maps one after the other, left to right.\<close>

fun runSources :: "network \<Rightarrow> 'v semver \<Rightarrow> string \<Rightarrow> jobject list \<Rightarrow> world \<Rightarrow> run" where
  "runSources N L app [] w = Finished w"
| "runSources N L app (m # ms) w =
     andThen (processHelmSource N L app m w) (runSources N L app ms)"

text \<open>The gauge updates a run has added to those of the state \<open>w\<close> it started from.\<close>

definition newSamples :: "world \<Rightarrow> run \<Rightarrow> sample list" where
  "newSamples w r = drop (length (emitted w)) (emitted (worldOf r))"

text \<open>A run started in \<open>w\<close> keeps the gauge updates of \<open>w\<close> and adds only updates
  that satisfy \<open>P\<close>.\<close>

definition extends :: "(sample \<Rightarrow> bool) \<Rightarrow> world \<Rightarrow> run \<Rightarrow> bool" where
  "extends P w r \<longleftrightarrow> (\<exists>new. emitted (worldOf r) = emitted w @ new \<and> list_all P new)"

text \<open>The cycle as one sequence of steps: every source map of every application, paired with
  the application's name, in the order of the listing.\<close>

definition cycleSteps :: "application list \<Rightarrow> (string \<times> jobject) list" where
  "cycleSteps apps = concat (map (\<lambda>a. map (\<lambda>m. (appName a, m)) (candidateSources a)) apps)"

fun runSteps :: "network \<Rightarrow> 'v semver \<Rightarrow> (string \<times> jobject) list \<Rightarrow> world \<Rightarrow> run" where
  "runSteps N L [] w = Finished w"
| "runSteps N L ((app, m) # rest) w =
     andThen (processHelmSource N L app m w) (runSteps N L rest)"

text \<open>A gauge update that carries the labels of the descriptor extracted from \<open>src\<close>.\<close>

definition fromSource :: "string \<Rightarrow> jobject \<Rightarrow> sample \<Rightarrow> bool" where
  "fromSource app src s \<longleftrightarrow>
     (case extractDescriptor src of
        None \<Rightarrow> False
      | Some h \<Rightarrow> application s = app \<and> chart s = chartName h \<and> repo_url s = repoURL h \<and>
                  current_version s = chartVersion h)"

text \<open>A field that is present under key \<open>k\<close>, is a string and is not empty.\<close>

definition usable :: "jobject \<Rightarrow> string \<Rightarrow> bool" where
  "usable m k \<longleftrightarrow> (case map_of m k of Some (JString s) \<Rightarrow> s \<noteq> [] | _ \<Rightarrow> False)"

text \<open>
  The selection as the specification words it: the comparison of two strings is one of
  four verdicts, \<open>Incomparable\<close> when either string fails to parse, and the running maximum
  is replaced when the candidate parses and compares \<open>Greater\<close>.
\<close>

datatype verdict = Same | Less | Greater | Incomparable

definition compareVersions :: "'v semver \<Rightarrow> string \<Rightarrow> string \<Rightarrow> verdict" where
  "compareVersions L a b =
     (case (NewVersion L a, NewVersion L b) of
        (Some x, Some y) \<Rightarrow>
          (if Compare L x y = 0 then Same else if Compare L x y < 0 then Less else Greater)
      | _ \<Rightarrow> Incomparable)"

fun runningMaximum :: "'v semver \<Rightarrow> string \<Rightarrow> string list \<Rightarrow> string" where
  "runningMaximum L latest [] = latest"
| "runningMaximum L latest (v # vs) =
     runningMaximum L (if compareVersions L v latest = Greater then v else latest) vs"

text \<open>The rule for the gauge value, with the comparison worded as the specification does.\<close>

definition statusRule :: "'v semver \<Rightarrow> sample \<Rightarrow> bool" where
  "statusRule L s \<longleftrightarrow>
     (status s = 1 \<longleftrightarrow> compareVersions L (current_version s) (latest_version s) = Same) \<and>
     (NewVersion L (current_version s) = None \<or> NewVersion L (latest_version s) = None
        \<longrightarrow> status s = 0) \<and>
     (status s = 0 \<or> status s = 1)"

section \<open>A semantic-versioning package to compute with\<close>

text \<open>
  Modelled from the spec: the semantic-versioning parser and comparison (section 4.1; in the
  program the imported package, which is not part of the repository). Only the
  MAJOR.MINOR.PATCH core is modelled: three dot-separated runs of decimal digits, compared
  numerically from the left. It serves to evaluate the program on concrete inputs.
\<close>

datatype version = Version (major: nat) (minor: nat) (patch: nat)

fun digits :: "nat \<Rightarrow> string \<Rightarrow> nat option" where
  "digits n [] = Some n"
| "digits n (c # cs) =
     (if c \<in> set ''0123456789'' then digits (10 * n + (of_char c - 48)) cs else None)"

definition parseUint :: "string \<Rightarrow> nat option" where
  "parseUint s = (if s = [] then None else digits 0 s)"

fun splitOn :: "char \<Rightarrow> string \<Rightarrow> string list" where
  "splitOn sep [] = [[]]"
| "splitOn sep (c # cs) =
     (if c = sep then [] # splitOn sep cs
      else (case splitOn sep cs of p # ps \<Rightarrow> (c # p) # ps | [] \<Rightarrow> [[c]]))"

definition parseCore :: "string \<Rightarrow> version option" where
  "parseCore s =
     (case map parseUint (splitOn (CHR ''.'') s) of
        [Some a, Some b, Some c] \<Rightarrow> Some (Version a b c)
      | _ \<Rightarrow> None)"

definition compareSegment :: "nat \<Rightarrow> nat \<Rightarrow> int" where
  "compareSegment a b = (if a < b then - 1 else if b < a then 1 else 0)"

definition compareCore :: "version \<Rightarrow> version \<Rightarrow> int" where
  "compareCore v o' =
     (if compareSegment (major v) (major o') \<noteq> 0 then compareSegment (major v) (major o')
      else if compareSegment (minor v) (minor o') \<noteq> 0 then compareSegment (minor v) (minor o')
      else compareSegment (patch v) (patch o'))"

definition coreSemver :: "bool \<Rightarrow> version semver" where
  "coreSemver guarded =
     \<lparr>NewVersion = parseCore, Compare = compareCore, nilGuardedEqual = guarded\<rparr>"

section \<open>Concrete inputs\<close>

text \<open>A chart repository: every URL answers with the same body, which decodes to the given
  entries; the URL \<open>down\<close> does not answer.\<close>

definition repository :: "string \<Rightarrow> (string \<rightharpoonup> string list) \<Rightarrow> network" where
  "repository down es =
     \<lparr>httpGet = (\<lambda>history url. if url = down then Inl ''connection refused'' else Inr ''entries''),
      yamlDecode = (\<lambda>body. if body = ''entries'' then Inr \<lparr>Entries = es\<rparr> else Inl ''yaml'')\<rparr>"

definition world0 :: world where
  "world0 = \<lparr>requests = [], emitted = []\<rparr>"

definition helmSource :: "string \<Rightarrow> string \<Rightarrow> string \<Rightarrow> jobject" where
  "helmSource c u r =
     [(''chart'', JString c), (''repoURL'', JString u), (''targetRevision'', JString r)]"

definition appWith :: "string \<Rightarrow> jobject \<Rightarrow> application" where
  "appWith n spec = \<lparr>appName = n, Object = [(''spec'', JMap spec)]\<rparr>"

definition exampleEntries :: "string \<rightharpoonup> string list" where
  "exampleEntries = [''nginx'' \<mapsto> [''1.0.0'', ''1.2.0'', ''1.1.0'']]"

text \<open>The repository at \<^verbatim>\<open>https://down/\<close> does not answer; every other one lists the chart
  \<^verbatim>\<open>nginx\<close> with three versions.\<close>

definition exampleNet :: network where
  "exampleNet = repository ''https://down//index.yaml'' exampleEntries"

definition specA :: jobject where
  "specA = [(''source'', JMap (helmSource ''nginx'' ''https://down'' ''1.2.0''))]"

definition listedB :: "jvalue list" where
  "listedB =
     [JNull,
      JMap (helmSource ''nginx'' ''https://y/'' ''1.0.0''),
      JMap (helmSource ''nginx'' ''https://y/'' ''bogus'')]"

definition specB :: jobject where
  "specB =
     [(''source'', JMap (helmSource ''nginx'' ''https://x'' ''1.2.0'')),
      (''sources'', JList listedB)]"

definition exampleApps :: "application list" where
  "exampleApps = [appWith ''a'' specA, appWith ''b'' specB]"

text \<open>An index whose first version record for \<^verbatim>\<open>nginx\<close> is not a version.\<close>

definition brokenEntries :: "string \<rightharpoonup> string list" where
  "brokenEntries = [''nginx'' \<mapsto> [''bogus'', ''1.0.0'']]"

definition brokenNet :: network where
  "brokenNet = repository [] brokenEntries"

section \<open>Lemmas shared by the claims\<close>

lemma andThen_Finished: "andThen r Finished = r"
  by (cases r) simp_all

lemma andThen_cong:
  "r = r' \<Longrightarrow> (\<And>w'. f w' = g w') \<Longrightarrow> andThen r f = andThen r' g"
  by (cases r') simp_all

lemma andThen_assoc: "andThen (andThen r f) g = andThen r (\<lambda>w. andThen (f w) g)"
  by (cases r) simp_all

lemma extends_Finished: "extends P w (Finished w)"
  by (simp add: extends_def)

lemma extends_andThen:
  assumes "extends P w r" and "\<And>w'. extends P w' (f w')"
  shows "extends P w (andThen r f)"
proof (cases r)
  case (Crashed w1)
  with assms(1) show ?thesis by simp
next
  case (Finished w1)
  from assms(1) Finished obtain n1 where n1: "emitted w1 = emitted w @ n1" "list_all P n1"
    by (auto simp: extends_def)
  from assms(2)[of w1] obtain n2
    where n2: "emitted (worldOf (f w1)) = emitted w1 @ n2" "list_all P n2"
    by (auto simp: extends_def)
  have "emitted (worldOf (f w1)) = emitted w @ (n1 @ n2)"
    using n1 n2 by simp
  moreover have "list_all P (n1 @ n2)"
    using n1 n2 by simp
  ultimately show ?thesis
    using Finished unfolding extends_def by (metis andThen.simps(2))
qed

lemma extends_newSamples: "extends P w r \<Longrightarrow> \<forall>s \<in> set (newSamples w r). P s"
  by (auto simp: extends_def newSamples_def list_all_iff)

text \<open>The loop over \<^verbatim>\<open>spec.sources\<close> visits exactly the entries that are maps, in order.\<close>

lemma processSources_runSources:
  "processSources N L app srcs w =
   runSources N L app (concat (map (\<lambda>src. case src of JMap m \<Rightarrow> [m] | _ \<Rightarrow> []) srcs)) w"
proof (induction srcs arbitrary: w)
  case Nil
  show ?case by simp
next
  case (Cons src srcs)
  show ?case by (cases src) (simp_all add: Cons cong: andThen_cong)
qed

lemma runSources_Nil: "runSources N L app [] = Finished"
  by (rule ext) simp

lemma processApp_runSources:
  "processApp N L a w = runSources N L (appName a) (candidateSources a) w"
  by (simp add: processApp_def candidateSources_def processSources_runSources runSources_Nil
      split: option.splits cong: andThen_cong)

lemma runSources_extends:
  "(\<And>m w'. m \<in> set ms \<Longrightarrow> extends P w' (processHelmSource N L app m w')) \<Longrightarrow>
   extends P w (runSources N L app ms w)"
proof (induction ms arbitrary: w)
  case Nil
  show ?case by (simp add: extends_Finished)
next
  case (Cons m ms)
  show ?case
    unfolding runSources.simps
    by (rule extends_andThen) (simp_all add: Cons)
qed

lemma runOnce_extends:
  "(\<And>a m w'. a \<in> set apps \<Longrightarrow> m \<in> set (candidateSources a) \<Longrightarrow>
      extends P w' (processHelmSource N L (appName a) m w')) \<Longrightarrow>
   extends P w (runOnce N L apps w)"
proof (induction apps arbitrary: w)
  case Nil
  show ?case by (simp add: extends_Finished)
next
  case (Cons a apps)
  have "extends P w (processApp N L a w)"
    unfolding processApp_runSources by (rule runSources_extends) (simp add: Cons.prems)
  moreover have "\<And>w'. extends P w' (runOnce N L apps w')"
    by (rule Cons.IH) (simp add: Cons.prems)
  ultimately show ?case
    unfolding runOnce.simps by (rule extends_andThen)
qed

text \<open>Resolving a chart logs one request and touches nothing else of the state.\<close>

lemma getLatestChartVersion_world:
  "snd (getLatestChartVersion N L repo c w) =
   w\<lparr>requests := requests w @ [repo @ ''/index.yaml'']\<rparr>"
  by (simp add: getLatestChartVersion_def Let_def
      split: sum.splits option.splits list.splits outcome.splits)

lemma compareVersions_Same:
  "compareVersions L a b = Same \<longleftrightarrow>
   (\<exists>x y. NewVersion L a = Some x \<and> NewVersion L b = Some y \<and> Compare L x y = 0)"
  by (auto simp: compareVersions_def split: option.splits)

lemma processHelmSource_status:
  "extends (statusRule L) w (processHelmSource N L app src w)"
proof (cases "extractDescriptor src")
  case None
  then show ?thesis by (simp add: processHelmSource_def extends_Finished)
next
  case (Some h)
  obtain res w' where g: "getLatestChartVersion N L (repoURL h) (chartName h) w = (res, w')"
    by (cases "getLatestChartVersion N L (repoURL h) (chartName h) w")
  with getLatestChartVersion_world[of N L "repoURL h" "chartName h" w]
  have e: "emitted w' = emitted w" by simp
  show ?thesis
    using Some g e
    by (auto simp: processHelmSource_def extends_def Let_def Equal_def compareVersions_def
        statusRule_def split: outcome.splits sum.splits option.splits)
qed

text \<open>The gauge updates of the example cycle.\<close>

lemma exampleApps_samples:
  "newSamples world0 (runOnce exampleNet (coreSemver True) exampleApps world0) =
     [\<lparr>application = ''b'', chart = ''nginx'', repo_url = ''https://x/'',
       current_version = ''1.2.0'', latest_version = ''1.2.0'', status = 1\<rparr>,
      \<lparr>application = ''b'', chart = ''nginx'', repo_url = ''https://y/'',
       current_version = ''1.0.0'', latest_version = ''1.2.0'', status = 0\<rparr>,
      \<lparr>application = ''b'', chart = ''nginx'', repo_url = ''https://y/'',
       current_version = ''bogus'', latest_version = ''1.2.0'', status = 0\<rparr>]"
  by code_simp

section \<open>The gauge value\<close>

text \<open>
  Claim C1. Every gauge update of a cycle has the value 1.0 exactly when the declared version
  and the resolved latest version both parse and compare equal; when either string fails
  to parse the value is 0.0; no other value is ever set.
\<close>

theorem gauge_is_one_iff_versions_parse_and_are_equal:
  "\<forall>s \<in> set (newSamples w (runOnce N L apps w)).
     (status s = 1 \<longleftrightarrow>
        (\<exists>x y. NewVersion L (current_version s) = Some x \<and>
               NewVersion L (latest_version s) = Some y \<and> Compare L x y = 0)) \<and>
     (NewVersion L (current_version s) = None \<or> NewVersion L (latest_version s) = None
        \<longrightarrow> status s = 0) \<and>
     (status s = 0 \<or> status s = 1)"
proof -
  have "extends (statusRule L) w (runOnce N L apps w)"
    by (rule runOnce_extends) (rule processHelmSource_status)
  then have "\<forall>s \<in> set (newSamples w (runOnce N L apps w)). statusRule L s"
    by (rule extends_newSamples)
  then show ?thesis
    unfolding statusRule_def compareVersions_Same by blast
qed

theorem gauge_is_one_iff_versions_parse_and_are_equal_witness:
  "map status (newSamples world0 (runOnce exampleNet (coreSemver True) exampleApps world0)) =
     [1, 0, 0] \<and>
   (\<exists>x y. NewVersion (coreSemver True) ''1.2.0'' = Some x \<and>
          NewVersion (coreSemver True) ''1.2.0'' = Some y \<and>
          Compare (coreSemver True) x y = 0) \<and>
   NewVersion (coreSemver True) ''bogus'' = None"
proof -
  have m: "map status
             (newSamples world0 (runOnce exampleNet (coreSemver True) exampleApps world0)) =
           [1, 0, 0]"
    by code_simp
  have b: "NewVersion (coreSemver True) ''bogus'' = None"
    by code_simp
  from gauge_is_one_iff_versions_parse_and_are_equal
         [of world0 exampleNet "coreSemver True" exampleApps]
  have "\<exists>x y. NewVersion (coreSemver True) ''1.2.0'' = Some x \<and>
          NewVersion (coreSemver True) ''1.2.0'' = Some y \<and>
          Compare (coreSemver True) x y = 0"
    unfolding exampleApps_samples by simp
  with m b show ?thesis by simp
qed

section \<open>Extraction of a Helm source\<close>


lemma usable_iff: "usable m k \<longleftrightarrow> (\<exists>s. map_of m k = Some (JString s) \<and> s \<noteq> [])"
  by (auto simp: usable_def split: option.splits jvalue.splits)




lemma extractDescriptor_Some_iff:
  "extractDescriptor source = Some d \<longleftrightarrow>
     (\<exists>h. extractFields source = Some h \<and> d = h\<lparr>repoURL := normalizeRepoURL (repoURL h)\<rparr>)"
  by (auto simp: extractDescriptor_def split: option.splits)



section \<open>Normalisation of the repository URL\<close>

lemma hasSuffix_slash: "hasSuffix u ''/'' \<longleftrightarrow> u \<noteq> [] \<and> last u = CHR ''/''"
proof (cases u rule: rev_cases)
  case Nil
  then show ?thesis by (simp add: hasSuffix_def)
next
  case (snoc ys y)
  then show ?thesis by (auto simp: hasSuffix_def)
qed



section \<open>Errors of getLatestChartVersion\<close>

text \<open>
  Claim C5. \<open>getLatestChartVersion\<close> returns an error exactly when the request fails (with
  the error of the request), when the body does not decode (with the decoder's error), or
  when the index has no entry for the chart or an entry with no version record (with the
  not-found error that names the chart). In the last case it returns: it does not panic.
\<close>

theorem getLatestChartVersion_error_cases:
  "fst (getLatestChartVersion N L repo c w) = Return (Inl e) \<longleftrightarrow>
     (case httpGet N (requests w) (repo @ ''/index.yaml'') of
        Inl msg \<Rightarrow> e = HttpGetError msg
      | Inr body \<Rightarrow>
          (case yamlDecode N body of
             Inl msg \<Rightarrow> e = YamlDecodeError msg
           | Inr idx \<Rightarrow>
               (Entries idx c = None \<or> Entries idx c = Some []) \<and> e = ChartNotFound c))"
  by (auto simp: getLatestChartVersion_def Let_def
      split: sum.splits option.splits list.splits outcome.splits)

theorem getLatestChartVersion_error_cases_witness:
  "fst (getLatestChartVersion exampleNet (coreSemver False) ''https://down/'' ''nginx'' world0) =
     Return (Inl (HttpGetError ''connection refused'')) \<and>
   fst (getLatestChartVersion exampleNet (coreSemver False) ''https://x/'' ''redis'' world0) =
     Return (Inl (ChartNotFound ''redis'')) \<and>
   fst (getLatestChartVersion exampleNet (coreSemver False) ''https://x/'' ''nginx'' world0) \<noteq>
     Return (Inl (ChartNotFound ''nginx''))"
  using getLatestChartVersion_error_cases
          [of exampleNet "coreSemver False" "''https://down/''" "''nginx''" world0
              "HttpGetError ''connection refused''"]
        getLatestChartVersion_error_cases
          [of exampleNet "coreSemver False" "''https://x/''" "''redis''" world0
              "ChartNotFound ''redis''"]
        getLatestChartVersion_error_cases
          [of exampleNet "coreSemver False" "''https://x/''" "''nginx''" world0
              "ChartNotFound ''nginx''"]
  by (simp add: exampleNet_def repository_def world0_def exampleEntries_def)

section \<open>The request for the index\<close>

text \<open>
  Claim C4. Called with a repository URL that ends with the separator,
  \<open>getLatestChartVersion\<close> makes one request, and its URL should be the repository URL
  followed by \<^verbatim>\<open>index.yaml\<close>. Line 42 appends \<^verbatim>\<open>/index.yaml\<close>: for \<^verbatim>\<open>https://x/\<close> the one
  request goes to \<^verbatim>\<open>https://x//index.yaml\<close>, with the separator doubled.
\<close>

theorem index_url_doubles_the_separator:
  "requests (snd (getLatestChartVersion exampleNet (coreSemver True) ''https://x/'' ''nginx''
               world0)) = [''https://x//index.yaml''] \<and>
   ''https://x//index.yaml'' \<noteq> ''https://x/'' @ ''index.yaml''"
  by (simp add: getLatestChartVersion_world world0_def)

section \<open>The selection of the latest version\<close>

lemma compareVersions_Greater:
  "compareVersions L a b = Greater \<longleftrightarrow>
   (\<exists>x y. NewVersion L a = Some x \<and> NewVersion L b = Some y \<and> 0 < Compare L x y)"
  by (auto simp: compareVersions_def split: option.splits)

text \<open>
  What the loop does on every input: it panics when the first entry does not parse and some
  later entry does, and otherwise returns the running maximum of the specification.
\<close>

lemma scanVersions_characterisation:
  "scanVersions L latest vs =
     (if NewVersion L latest = None \<and> (\<exists>v \<in> set vs. NewVersion L v \<noteq> None) then Panic
      else Return (runningMaximum L latest vs))"
proof (induction vs arbitrary: latest)
  case Nil
  show ?case by simp
next
  case (Cons v vs)
  show ?case
  proof (cases "NewVersion L v")
    case None
    then have "compareVersions L v latest \<noteq> Greater"
      by (simp add: compareVersions_Greater)
    with None show ?thesis
      by (simp add: Cons.IH)
  next
    case (Some x)
    show ?thesis
    proof (cases "NewVersion L latest")
      case None
      with Some show ?thesis by (simp add: GreaterThan_def)
    next
      case (Some y)
      with \<open>NewVersion L v = Some x\<close> show ?thesis
        by (simp add: GreaterThan_def Cons.IH compareVersions_Greater)
    qed
  qed
qed

text \<open>
  When the package's comparison is a total preorder and the first entry parses, the running
  maximum is an entry that parses and that no parsable entry exceeds.
\<close>

lemma runningMaximum_greatest:
  assumes trans: "\<And>a b c. Compare L a b \<le> 0 \<Longrightarrow> Compare L b c \<le> 0 \<Longrightarrow> Compare L a c \<le> 0"
    and total: "\<And>a b. Compare L a b \<le> 0 \<or> Compare L b a \<le> 0"
    and seed: "NewVersion L latest = Some x"
  shows "\<exists>m. NewVersion L (runningMaximum L latest vs) = Some m \<and>
             runningMaximum L latest vs \<in> set (latest # vs) \<and>
             Compare L x m \<le> 0 \<and>
             (\<forall>v \<in> set vs. \<forall>y. NewVersion L v = Some y \<longrightarrow> Compare L y m \<le> 0)"
  using seed
proof (induction vs arbitrary: latest x)
  case Nil
  with total[of x x] show ?case by auto
next
  case (Cons v vs)
  show ?case
  proof (cases "compareVersions L v latest = Greater")
    case True
    then obtain y where y: "NewVersion L v = Some y" "0 < Compare L y x"
      using Cons.prems by (auto simp: compareVersions_Greater)
    from Cons.IH[OF y(1)] obtain m where m:
      "NewVersion L (runningMaximum L v vs) = Some m"
      "runningMaximum L v vs \<in> set (v # vs)"
      "Compare L y m \<le> 0"
      "\<forall>u \<in> set vs. \<forall>z. NewVersion L u = Some z \<longrightarrow> Compare L z m \<le> 0"
      by blast
    from y(2) total[of y x] have "Compare L x y \<le> 0" by auto
    then have "Compare L x m \<le> 0" using m(3) by (rule trans)
    with True m y show ?thesis by auto
  next
    case False
    from Cons.IH[OF Cons.prems] obtain m where m:
      "NewVersion L (runningMaximum L latest vs) = Some m"
      "runningMaximum L latest vs \<in> set (latest # vs)"
      "Compare L x m \<le> 0"
      "\<forall>u \<in> set vs. \<forall>z. NewVersion L u = Some z \<longrightarrow> Compare L z m \<le> 0"
      by blast
    have "Compare L y m \<le> 0" if "NewVersion L v = Some y" for y
    proof -
      from that False Cons.prems have "Compare L y x \<le> 0"
        by (auto simp: compareVersions_Greater)
      then show ?thesis using m(3) by (rule trans)
    qed
    with False m show ?thesis by auto
  qed
qed

lemma scanVersions_examples:
  "scanVersions (coreSemver False) ''1.0.0'' [''1.2.0'', ''1.1.0''] = Return ''1.2.0''"
  "scanVersions (coreSemver False) ''1.0.0'' [''junk'', ''1.1.0''] = Return ''1.1.0''"
  "scanVersions (coreSemver False) ''bogus'' [''junk'', ''''] = Return ''bogus''"
  by code_simp+

text \<open>
  Claim C2. For every non-empty sequence of entries the result should be the running
  maximum that starts from the first entry and is replaced when a later entry parses and
  compares greater. For the entries \<^verbatim>\<open>bogus\<close>, \<^verbatim>\<open>1.0.0\<close> that running maximum is \<^verbatim>\<open>bogus\<close>;
  \<open>getLatestChartVersion\<close> returns nothing there, it panics.
\<close>

theorem unparsable_seed_before_a_version_panics:
  "fst (getLatestChartVersion brokenNet (coreSemver True) ''https://x/'' ''nginx'' world0) =
     Panic \<and>
   runningMaximum (coreSemver True) ''bogus'' [''1.0.0''] = ''bogus''"
  by code_simp

text \<open>
  Claim C3. The scan should never abort on entries that do not parse. On the entries
  \<^verbatim>\<open>bogus\<close>, \<^verbatim>\<open>1.0.0\<close> it panics, whether or not the package guards \<^verbatim>\<open>Equal\<close>, and the
  panic ends the cycle: the second application is never looked at.
\<close>

theorem scan_aborts_when_the_first_entry_is_unparsable:
  "scanVersions (coreSemver True) ''bogus'' [''1.0.0''] = Panic \<and>
   scanVersions (coreSemver False) ''bogus'' [''1.0.0''] = Panic \<and>
   runOnce brokenNet (coreSemver True)
     [appWith ''a'' [(''source'', JMap (helmSource ''nginx'' ''https://x'' ''1.0.0''))],
      appWith ''b'' [(''source'', JMap (helmSource ''nginx'' ''https://x'' ''1.0.0''))]]
     world0 =
   Crashed \<lparr>requests = [''https://x//index.yaml''], emitted = []\<rparr>"
  by code_simp

section \<open>The cycle, step by step\<close>

lemma extends_mono: "extends P w r \<Longrightarrow> (\<And>s. P s \<Longrightarrow> Q s) \<Longrightarrow> extends Q w r"
  unfolding extends_def by (auto simp: list_all_iff)

lemma runSteps_append:
  "runSteps N L (xs @ ys) w = andThen (runSteps N L xs w) (runSteps N L ys)"
proof (induction xs arbitrary: w)
  case Nil
  show ?case by simp
next
  case (Cons x xs)
  obtain app m where x: "x = (app, m)" by (cases x)
  show ?case
    by (simp add: x Cons andThen_assoc cong: andThen_cong)
qed

lemma runSources_runSteps:
  "runSources N L app ms w = runSteps N L (map (\<lambda>m. (app, m)) ms) w"
proof (induction ms arbitrary: w)
  case Nil
  show ?case by simp
next
  case (Cons m ms)
  show ?case by (simp add: Cons cong: andThen_cong)
qed

lemma runOnce_runSteps: "runOnce N L apps w = runSteps N L (cycleSteps apps) w"
proof (induction apps arbitrary: w)
  case Nil
  show ?case by (simp add: cycleSteps_def)
next
  case (Cons a apps)
  have "cycleSteps (a # apps) = map (\<lambda>m. (appName a, m)) (candidateSources a) @ cycleSteps apps"
    by (simp add: cycleSteps_def)
  then show ?case
    by (simp add: runSteps_append processApp_runSources runSources_runSteps Cons
        cong: andThen_cong)
qed

lemma processHelmSource_resolution_error:
  assumes "extractDescriptor src = Some h"
    and "fst (getLatestChartVersion N L (repoURL h) (chartName h) w) = Return (Inl e)"
  shows "processHelmSource N L app src w =
         Finished (w\<lparr>requests := requests w @ [repoURL h @ ''/index.yaml'']\<rparr>)"
proof -
  obtain res w' where g: "getLatestChartVersion N L (repoURL h) (chartName h) w = (res, w')"
    by (cases "getLatestChartVersion N L (repoURL h) (chartName h) w")
  with getLatestChartVersion_world[of N L "repoURL h" "chartName h" w]
  have "w' = w\<lparr>requests := requests w @ [repoURL h @ ''/index.yaml'']\<rparr>"
    by simp
  with assms g show ?thesis
    by (simp add: processHelmSource_def)
qed

text \<open>
  Claim C8. When the resolution of one descriptor of a cycle returns an error, that step
  ends normally and adds no gauge update, and the cycle goes on with all the later
  descriptors, those of the same application and those of the applications after it.
\<close>

theorem resolution_error_skips_only_that_descriptor:
  assumes steps: "cycleSteps apps = before @ (app, src) # after"
    and before: "runSteps N L before w = Finished w1"
    and valid: "extractDescriptor src = Some h"
    and err: "fst (getLatestChartVersion N L (repoURL h) (chartName h) w1) = Return (Inl e)"
  shows "\<exists>w2. processHelmSource N L app src w1 = Finished w2 \<and>
              emitted w2 = emitted w1 \<and>
              runOnce N L apps w = runSteps N L after w2"
proof -
  let ?w2 = "w1\<lparr>requests := requests w1 @ [repoURL h @ ''/index.yaml'']\<rparr>"
  have p: "processHelmSource N L app src w1 = Finished ?w2"
    using valid err by (rule processHelmSource_resolution_error)
  have "runOnce N L apps w =
        andThen (runSteps N L before w) (runSteps N L ((app, src) # after))"
    by (simp add: runOnce_runSteps steps runSteps_append)
  also have "\<dots> = runSteps N L after ?w2"
    by (simp add: before p)
  finally show ?thesis
    using p by simp
qed

theorem resolution_error_skips_only_that_descriptor_witness:
  "fst (getLatestChartVersion exampleNet (coreSemver True) ''https://down/'' ''nginx'' world0) =
     Return (Inl (HttpGetError ''connection refused'')) \<and>
   (\<exists>w2. processHelmSource exampleNet (coreSemver True) ''a''
            (helmSource ''nginx'' ''https://down'' ''1.2.0'') world0 = Finished w2 \<and>
         emitted w2 = emitted world0 \<and>
         runOnce exampleNet (coreSemver True) exampleApps world0 =
           runSteps exampleNet (coreSemver True) (cycleSteps [appWith ''b'' specB]) w2) \<and>
   map application
     (newSamples world0 (runOnce exampleNet (coreSemver True) exampleApps world0)) =
     [''b'', ''b'', ''b'']"
proof -
  have steps: "cycleSteps exampleApps =
      [] @ (''a'', helmSource ''nginx'' ''https://down'' ''1.2.0'') #
           cycleSteps [appWith ''b'' specB]"
    by code_simp
  have before: "runSteps exampleNet (coreSemver True) [] world0 = Finished world0"
    by simp
  have valid: "extractDescriptor (helmSource ''nginx'' ''https://down'' ''1.2.0'') =
      Some \<lparr>chartName = ''nginx'', repoURL = ''https://down/'', chartVersion = ''1.2.0''\<rparr>"
    by code_simp
  have err: "fst (getLatestChartVersion exampleNet (coreSemver True)
        (repoURL \<lparr>chartName = ''nginx'', repoURL = ''https://down/'', chartVersion = ''1.2.0''\<rparr>)
        (chartName \<lparr>chartName = ''nginx'', repoURL = ''https://down/'',
                     chartVersion = ''1.2.0''\<rparr>) world0) =
      Return (Inl (HttpGetError ''connection refused''))"
    by code_simp
  have s: "map application
     (newSamples world0 (runOnce exampleNet (coreSemver True) exampleApps world0)) =
     [''b'', ''b'', ''b'']"
    by (simp add: exampleApps_samples)
  from resolution_error_skips_only_that_descriptor [OF steps before valid err] err s
  show ?thesis by simp
qed

section \<open>Which records yield gauge updates\<close>

lemma processHelmSource_fromSource:
  "extends (fromSource app src) w (processHelmSource N L app src w)"
proof (cases "extractDescriptor src")
  case None
  then show ?thesis by (simp add: processHelmSource_def extends_Finished)
next
  case (Some h)
  obtain res w' where g: "getLatestChartVersion N L (repoURL h) (chartName h) w = (res, w')"
    by (cases "getLatestChartVersion N L (repoURL h) (chartName h) w")
  with getLatestChartVersion_world[of N L "repoURL h" "chartName h" w]
  have e: "emitted w' = emitted w" by simp
  show ?thesis
    using Some g e
    by (auto simp: processHelmSource_def extends_def Let_def fromSource_def
        split: outcome.splits sum.splits option.splits)
qed

lemma processHelmSource_absent:
  "extractDescriptor src = None \<Longrightarrow> processHelmSource N L app src w = Finished w"
  by (simp add: processHelmSource_def)

lemma runSources_absent:
  "\<forall>src \<in> set ms. extractDescriptor src = None \<Longrightarrow> runSources N L app ms w = Finished w"
  by (induction ms) (simp_all add: processHelmSource_absent)

text \<open>
  Claim C9. Every gauge update of a cycle carries the labels of a descriptor extracted from
  a source map of one of the applications. An application whose \<^verbatim>\<open>spec\<close> is missing or not
  a map, one whose spec has neither \<^verbatim>\<open>source\<close> nor \<^verbatim>\<open>sources\<close>, and one none of whose source
  maps yields a descriptor leave the state as it was and end normally.
\<close>

theorem samples_only_for_validated_sources:
  "(\<forall>s \<in> set (newSamples w (runOnce N L apps w)).
      \<exists>a \<in> set apps. \<exists>src \<in> set (candidateSources a). \<exists>h.
        extractDescriptor src = Some h \<and> application s = appName a \<and>
        chart s = chartName h \<and> repo_url s = repoURL h \<and> current_version s = chartVersion h) \<and>
   (mapAt (Object a) ''spec'' = None \<longrightarrow> processApp N L a w = Finished w) \<and>
   (\<forall>spec. mapAt (Object a) ''spec'' = Some spec \<and> map_of spec ''source'' = None \<and>
           map_of spec ''sources'' = None \<longrightarrow> processApp N L a w = Finished w) \<and>
   ((\<forall>src \<in> set (candidateSources a). extractDescriptor src = None) \<longrightarrow>
      processApp N L a w = Finished w \<and> runOnce N L (a # apps) w = runOnce N L apps w)"
proof (intro conjI allI impI)
  let ?P = "\<lambda>s. \<exists>a \<in> set apps. \<exists>src \<in> set (candidateSources a). fromSource (appName a) src s"
  have "extends ?P w (runOnce N L apps w)"
  proof (rule runOnce_extends)
    fix a m w'
    assume "a \<in> set apps" "m \<in> set (candidateSources a)"
    then have "\<And>s. fromSource (appName a) m s \<Longrightarrow> ?P s"
      by blast
    with processHelmSource_fromSource
    show "extends ?P w' (processHelmSource N L (appName a) m w')"
      by (rule extends_mono)
  qed
  then have "\<forall>s \<in> set (newSamples w (runOnce N L apps w)). ?P s"
    by (rule extends_newSamples)
  then show "\<forall>s \<in> set (newSamples w (runOnce N L apps w)).
      \<exists>a \<in> set apps. \<exists>src \<in> set (candidateSources a). \<exists>h.
        extractDescriptor src = Some h \<and> application s = appName a \<and>
        chart s = chartName h \<and> repo_url s = repoURL h \<and> current_version s = chartVersion h"
    by (fastforce simp: fromSource_def split: option.splits)
next
  assume "mapAt (Object a) ''spec'' = None"
  then show "processApp N L a w = Finished w"
    by (simp add: processApp_def)
next
  fix spec
  assume "mapAt (Object a) ''spec'' = Some spec \<and> map_of spec ''source'' = None \<and>
           map_of spec ''sources'' = None"
  then show "processApp N L a w = Finished w"
    by (simp add: processApp_def mapAt_def listAt_def)
next
  assume "\<forall>src \<in> set (candidateSources a). extractDescriptor src = None"
  then show "processApp N L a w = Finished w"
    by (simp add: processApp_runSources runSources_absent)
  then show "runOnce N L (a # apps) w = runOnce N L apps w"
    by simp
qed

theorem samples_only_for_validated_sources_witness:
  "processApp exampleNet (coreSemver True) \<lparr>appName = ''c'', Object = []\<rparr> world0 =
     Finished world0 \<and>
   processApp exampleNet (coreSemver True) (appWith ''d'' []) world0 = Finished world0 \<and>
   runOnce exampleNet (coreSemver True)
     (appWith ''e'' [(''source'', JMap [(''repoURL'', JString ''https://x'')])] # exampleApps)
     world0 =
   runOnce exampleNet (coreSemver True) exampleApps world0 \<and>
   (\<exists>a \<in> set exampleApps. \<exists>src \<in> set (candidateSources a). \<exists>h.
      extractDescriptor src = Some h \<and> appName a = ''b'' \<and> chartName h = ''nginx'' \<and>
      repoURL h = ''https://x/'' \<and> chartVersion h = ''1.2.0'')"
proof -
  have c: "mapAt (Object \<lparr>appName = ''c'', Object = []\<rparr>) ''spec'' = None"
    by (simp add: mapAt_def)
  have d: "mapAt (Object (appWith ''d'' [])) ''spec'' = Some [] \<and>
           map_of [] ''source'' = (None :: jvalue option) \<and>
           map_of [] ''sources'' = (None :: jvalue option)"
    by (simp add: mapAt_def appWith_def)
  have e: "\<forall>src \<in> set (candidateSources
              (appWith ''e'' [(''source'', JMap [(''repoURL'', JString ''https://x'')])])).
            extractDescriptor src = None"
    by code_simp
  from samples_only_for_validated_sources
         [of world0 exampleNet "coreSemver True" exampleApps "\<lparr>appName = ''c'', Object = []\<rparr>"] c
  have 1: "processApp exampleNet (coreSemver True) \<lparr>appName = ''c'', Object = []\<rparr> world0 =
     Finished world0"
    by blast
  from samples_only_for_validated_sources
         [of world0 exampleNet "coreSemver True" exampleApps "appWith ''d'' []"] d
  have 2: "processApp exampleNet (coreSemver True) (appWith ''d'' []) world0 = Finished world0"
    by blast
  from samples_only_for_validated_sources
         [of world0 exampleNet "coreSemver True" exampleApps
             "appWith ''e'' [(''source'', JMap [(''repoURL'', JString ''https://x'')])]"] e
  have 3: "runOnce exampleNet (coreSemver True)
     (appWith ''e'' [(''source'', JMap [(''repoURL'', JString ''https://x'')])] # exampleApps)
     world0 =
   runOnce exampleNet (coreSemver True) exampleApps world0"
    by blast
  from samples_only_for_validated_sources
         [of world0 exampleNet "coreSemver True" exampleApps "appWith ''d'' []"]
  have 4: "\<exists>a \<in> set exampleApps. \<exists>src \<in> set (candidateSources a). \<exists>h.
      extractDescriptor src = Some h \<and> appName a = ''b'' \<and> chartName h = ''nginx'' \<and>
      repoURL h = ''https://x/'' \<and> chartVersion h = ''1.2.0''"
    unfolding exampleApps_samples by (auto simp: eq_commute)
  from 1 2 3 4 show ?thesis by blast
qed

section \<open>An application with both shapes\<close>





section \<open>Further facts about single steps\<close>

text \<open>
  Every request of the program comes from \<open>processHelmSource\<close>, after the normalisation: its
  URL is the normalised repository URL, which ends with the separator, followed by
  \<^verbatim>\<open>/index.yaml\<close>.
\<close>

lemma processHelmSource_request:
  assumes "extractDescriptor src = Some h"
  shows "\<exists>u. repoURL h = u @ ''/'' \<and>
             requests (worldOf (processHelmSource N L app src w)) =
               requests w @ [u @ ''//index.yaml'']"
proof -
  from assms obtain f where "extractFields src = Some f"
    and h: "h = f\<lparr>repoURL := normalizeRepoURL (repoURL f)\<rparr>"
    by (auto simp: extractDescriptor_Some_iff)
  have "hasSuffix (repoURL h) ''/''"
    by (simp add: h normalizeRepoURL_def hasSuffix_slash)
  then have "repoURL h \<noteq> [] \<and> last (repoURL h) = CHR ''/''"
    by (simp add: hasSuffix_slash)
  then have u: "repoURL h = butlast (repoURL h) @ ''/''"
    by (metis append_butlast_last_id)
  obtain res w' where g: "getLatestChartVersion N L (repoURL h) (chartName h) w = (res, w')"
    by (cases "getLatestChartVersion N L (repoURL h) (chartName h) w")
  with getLatestChartVersion_world[of N L "repoURL h" "chartName h" w]
  have w': "requests w' = requests w @ [repoURL h @ ''/index.yaml'']"
    by simp
  have "requests (worldOf (processHelmSource N L app src w)) = requests w'"
    using assms g
    by (simp add: processHelmSource_def Let_def split: outcome.splits sum.splits)
  with w' have "requests (worldOf (processHelmSource N L app src w)) =
      requests w @ [butlast (repoURL h) @ ''//index.yaml'']"
    by (subst (asm) u) simp
  with u show ?thesis by blast
qed

text \<open>
  A step whose chart resolves: the gauge is updated, except that a declared version that
  does not parse, next to a latest version that does, reaches \<^verbatim>\<open>Equal\<close> as a nil receiver
  and panics when the package does not guard \<^verbatim>\<open>Equal\<close>.
\<close>

lemma processHelmSource_resolved:
  assumes "extractDescriptor src = Some h"
    and "getLatestChartVersion N L (repoURL h) (chartName h) w = (Return (Inr latest), w')"
  shows "processHelmSource N L app src w =
     (let update = (\<lambda>v. w'\<lparr>emitted := emitted w' @
                      [\<lparr>application = app, chart = chartName h, repo_url = repoURL h,
                        current_version = chartVersion h, latest_version = latest,
                        status = v\<rparr>]\<rparr>)
      in case (NewVersion L (chartVersion h), NewVersion L latest) of
           (_, None) \<Rightarrow> Finished (update 0)
         | (Some x, Some y) \<Rightarrow> Finished (update (if Compare L x y = 0 then 1 else 0))
         | (None, Some y) \<Rightarrow> (if nilGuardedEqual L then Finished (update 0) else Crashed w'))"
  using assms
  by (simp add: processHelmSource_def Let_def Equal_def split: option.splits)

lemma unparsable_declared_version_examples:
  "newSamples world0 (processHelmSource exampleNet (coreSemver True) ''b''
       (helmSource ''nginx'' ''https://y/'' ''bogus'') world0) =
     [\<lparr>application = ''b'', chart = ''nginx'', repo_url = ''https://y/'',
       current_version = ''bogus'', latest_version = ''1.2.0'', status = 0\<rparr>]"
  "processHelmSource exampleNet (coreSemver False) ''b''
       (helmSource ''nginx'' ''https://y/'' ''bogus'') world0 =
     Crashed \<lparr>requests = [''https://y//index.yaml''], emitted = []\<rparr>"
  by code_simp+

end
